theory Spec2Isabelle
  imports Main "HOL-Library.Sublist"
begin

text \<open>
  The grunt task \<^verbatim>\<open>bundlecache\<close> of \<^verbatim>\<open>tasks/bundle-cache.js\<close>: it reads a list of files,
  wraps each in a script tag of type \<^verbatim>\<open>text/ng-template\<close> and writes the tags into an HTML
  file in front of \<^verbatim>\<open></body>\<close>. The function \<^verbatim>\<open>bundlecache\<close> is modelled with the JavaScript
  and Node.js functions it calls, and the properties of its result and of its effect on
  the file system are proved.
\<close>

section \<open>JavaScript strings and arrays\<close>

text \<open>
  A JavaScript string is modelled as a \<^typ>\<open>string\<close>: one \<^typ>\<open>char\<close> per code unit.
  Only the operations that \<^verbatim>\<open>tasks/bundle-cache.js\<close> calls are modelled, each with the
  result ECMAScript gives, the out-of-range cases included.
\<close>

text \<open>\<^verbatim>\<open>s.indexOf(pat)\<close>: the least index at which \<open>pat\<close> starts in \<open>s\<close>, or \<open>-1\<close>.\<close>

fun indexOf_at :: "nat \<Rightarrow> string \<Rightarrow> string \<Rightarrow> int" where
  "indexOf_at k [] pat = (if pat = [] then int k else - 1)"
| "indexOf_at k (c # cs) pat =
     (if prefix pat (c # cs) then int k else indexOf_at (Suc k) cs pat)"

definition indexOf :: "string \<Rightarrow> string \<Rightarrow> int" where
  "indexOf s pat = indexOf_at 0 s pat"

text \<open>
  \<^verbatim>\<open>s.slice(start, end)\<close>: a negative index counts from the end of the string, every
  index is clamped to \<open>0 .. length s\<close>, and an empty range gives the empty string.
\<close>

definition slice_index :: "string \<Rightarrow> int \<Rightarrow> nat" where
  "slice_index s i =
     (let len = int (length s)
      in nat (if i < 0 then max (len + i) 0 else min i len))"

definition slice :: "string \<Rightarrow> int \<Rightarrow> int \<Rightarrow> string" where
  "slice s start fin =
     (let from = slice_index s start; to = slice_index s fin
      in take (to - from) (drop from s))"

text \<open>\<^verbatim>\<open>s.slice(start)\<close>: the end defaults to the length of the string.\<close>

definition slice_from :: "string \<Rightarrow> int \<Rightarrow> string" where
  "slice_from s start = slice s start (int (length s))"

text \<open>
  \<^verbatim>\<open>xs.join(sep)\<close>: the empty string for an empty array, otherwise the first element
  followed by \<open>sep\<close> and the next element, for each further element.
\<close>

definition join :: "string list \<Rightarrow> string \<Rightarrow> string" where
  "join xs sep =
     (case xs of
        [] \<Rightarrow> []
      | x # rest \<Rightarrow> foldl (\<lambda>r e. r @ sep @ e) x rest)"

section \<open>Errors\<close>

text \<open>
  What ends a call early: an exception of \<^verbatim>\<open>new RegExp\<close>, of \<^verbatim>\<open>fs.lstatSync\<close> or of
  \<^verbatim>\<open>grunt.file.read\<close>, or the warning of \<^verbatim>\<open>grunt.fail.warn\<close>.
\<close>

datatype error =
    RegExpError string
  | FailWarn string
  | StatError string
  | ReadError string

section \<open>Regular expressions\<close>

text \<open>
  A regular expression is modelled by what \<^verbatim>\<open>s.replace(re, '')\<close> needs of it: the search
  for its first match in a subject, which gives the index and the length of the match.
  The constructor \<^verbatim>\<open>new RegExp(source)\<close> is a function of the host (see below).
\<close>

type_synonym matcher = "string \<Rightarrow> (nat \<times> nat) option"

text \<open>\<^verbatim>\<open>s.replace(re, '')\<close> for a regular expression without the global flag.\<close>

definition replace_empty :: "string \<Rightarrow> matcher \<Rightarrow> string" where
  "replace_empty s re =
     (case re s of
        None \<Rightarrow> s
      | Some (i, n) \<Rightarrow> take i s @ drop (i + n) s)"

text \<open>
  The engine of the examples: \<^verbatim>\<open>new RegExp(source)\<close> and \<^verbatim>\<open>RegExp.prototype.exec\<close> for a
  fragment of the pattern language: literal characters, the wildcard \<^verbatim>\<open>.\<close>, the assertion
  \<^verbatim>\<open>^\<close> and the alternation \<^verbatim>\<open>|\<close>. A pattern with any other syntax character (a
  quantifier, a group, a class, an escape, \<^verbatim>\<open>$\<close>) is outside the fragment: JavaScript
  either throws a SyntaxError for it or builds a regular expression this fragment does
  not describe, so the fragment gives an error for it. No flag is set: \<^verbatim>\<open>^\<close> holds at
  index 0 only, and \<^verbatim>\<open>.\<close> matches every character but a line terminator.
\<close>

datatype atom = Bol | Dot | Lit char

type_synonym alternative = "atom list"

type_synonym regex = "alternative list"

definition other_syntax_chars :: string where
  "other_syntax_chars = CHR 0x5C # ''$*+?()[]{}''"

definition parse_atom :: "char \<Rightarrow> atom option" where
  "parse_atom c =
     (if c = CHR ''^'' then Some Bol
      else if c = CHR ''.'' then Some Dot
      else if c \<in> set other_syntax_chars then None
      else Some (Lit c))"

fun parse_alternative :: "string \<Rightarrow> alternative option" where
  "parse_alternative [] = Some []"
| "parse_alternative (c # cs) =
     (case parse_atom c of
        None \<Rightarrow> None
      | Some a \<Rightarrow> map_option ((#) a) (parse_alternative cs))"

fun parse_disjunction :: "string \<Rightarrow> string \<Rightarrow> regex option" where
  "parse_disjunction acc [] = map_option (\<lambda>a. [a]) (parse_alternative (rev acc))"
| "parse_disjunction acc (c # cs) =
     (if c = CHR ''|''
      then (case parse_alternative (rev acc) of
              None \<Rightarrow> None
            | Some a \<Rightarrow> map_option ((#) a) (parse_disjunction [] cs))
      else parse_disjunction (c # acc) cs)"

definition RegExp :: "string \<Rightarrow> error + regex" where
  "RegExp source =
     (case parse_disjunction [] source of
        None \<Rightarrow> Inl (RegExpError source)
      | Some re \<Rightarrow> Inr re)"

definition line_terminator :: "char \<Rightarrow> bool" where
  "line_terminator c = (c = CHR 0x0A \<or> c = CHR 0x0D)"

text \<open>
  \<open>match_atoms as i s\<close>: the atoms matched one after the other against \<open>s\<close>, the rest of
  the subject from index \<open>i\<close> on; the result is the number of characters consumed.
\<close>

fun match_atoms :: "alternative \<Rightarrow> nat \<Rightarrow> string \<Rightarrow> nat option" where
  "match_atoms [] i s = Some 0"
| "match_atoms (Bol # as) i s = (if i = 0 then match_atoms as i s else None)"
| "match_atoms (Dot # as) i [] = None"
| "match_atoms (Dot # as) i (c # cs) =
     (if line_terminator c then None else map_option Suc (match_atoms as (Suc i) cs))"
| "match_atoms (Lit a # as) i [] = None"
| "match_atoms (Lit a # as) i (c # cs) =
     (if a = c then map_option Suc (match_atoms as (Suc i) cs) else None)"

text \<open>The alternatives are tried from left to right; the first that matches wins.\<close>

fun match_disjunction :: "regex \<Rightarrow> nat \<Rightarrow> string \<Rightarrow> nat option" where
  "match_disjunction [] i s = None"
| "match_disjunction (a # as) i s =
     (case match_atoms a i s of
        Some n \<Rightarrow> Some n
      | None \<Rightarrow> match_disjunction as i s)"

text \<open>
  The search of \<^verbatim>\<open>RegExp.prototype.exec\<close>: the start index goes up from 0 to the length
  of the subject, and the first index with a match gives the result (index, length).
\<close>

fun exec_at :: "regex \<Rightarrow> nat \<Rightarrow> string \<Rightarrow> (nat \<times> nat) option" where
  "exec_at re i [] = map_option (Pair i) (match_disjunction re i [])"
| "exec_at re i (c # cs) =
     (case match_disjunction re i (c # cs) of
        Some n \<Rightarrow> Some (i, n)
      | None \<Rightarrow> exec_at re (Suc i) cs)"

definition exec :: "regex \<Rightarrow> string \<Rightarrow> (nat \<times> nat) option" where
  "exec re s = exec_at re 0 s"

definition RegExp_fragment :: "string \<Rightarrow> error + matcher" where
  "RegExp_fragment source =
     (case RegExp source of
        Inl e \<Rightarrow> Inl e
      | Inr re \<Rightarrow> Inr (exec re))"

text \<open>
  The strip as the specification words it, for comparison with \<open>replace_empty\<close> on the
  anchored pattern: the pattern is matched at the start of the path and nowhere else, and
  what it matches there is removed.
\<close>

definition anchored_strip :: "string \<Rightarrow> regex \<Rightarrow> string" where
  "anchored_strip s re =
     (case match_disjunction re 0 s of
        None \<Rightarrow> s
      | Some n \<Rightarrow> drop n s)"

text \<open>A pattern source made of literal characters only.\<close>

definition literal :: "string \<Rightarrow> bool" where
  "literal b = list_all (\<lambda>c. c \<notin> set (''^.|'' @ other_syntax_chars)) b"

section \<open>Paths\<close>

text \<open>
  \<^verbatim>\<open>path.extname(p)\<close> of Node.js for POSIX paths: the text from the last dot of the last
  path component on; empty when that component has no dot, when its only dot is its
  first character, or when it is \<^verbatim>\<open>..\<close>.
\<close>

definition basename :: "string \<Rightarrow> string" where
  "basename p =
     rev (takeWhile (\<lambda>c. c \<noteq> CHR ''/'') (dropWhile (\<lambda>c. c = CHR ''/'') (rev p)))"

definition extname :: "string \<Rightarrow> string" where
  "extname p =
     (let b = basename p;
          ext = rev (takeWhile (\<lambda>c. c \<noteq> CHR ''.'') (rev b));
          stem = rev (drop 1 (dropWhile (\<lambda>c. c \<noteq> CHR ''.'') (rev b)))
      in if CHR ''.'' \<notin> set b then []
         else if stem = [] then []
         else if b = ''..'' then []
         else CHR ''.'' # ext)"

section \<open>The file system and the host\<close>

text \<open>
  A path names a regular file with its text, or a node of another kind (a directory).
  The world is the file system and the log of the calls made on it, oldest first. A
  path is the string a call receives: the destination is looked up under its resolved
  path, a source file under the path the expansion gave.
\<close>

datatype node = File string | Directory

datatype event =
    ExistsSync string
  | LstatSync string
  | ReadFile string
  | WriteFile string string

record world =
  nodes :: "string \<Rightarrow> node option"
  log :: "event list"

definition emit :: "event \<Rightarrow> world \<Rightarrow> world" where
  "emit e w = w\<lparr>log := log w @ [e]\<rparr>"

text \<open>\<^verbatim>\<open>fs.existsSync(p)\<close>.\<close>

definition existsSync :: "string \<Rightarrow> world \<Rightarrow> bool \<times> world" where
  "existsSync p w = (nodes w p \<noteq> None, emit (ExistsSync p) w)"

text \<open>\<^verbatim>\<open>fs.lstatSync(p).isFile()\<close>; \<^verbatim>\<open>lstatSync\<close> throws for a path that does not exist.\<close>

definition lstatSync_isFile :: "string \<Rightarrow> world \<Rightarrow> (error + bool) \<times> world" where
  "lstatSync_isFile p w =
     (case nodes w p of
        None \<Rightarrow> (Inl (StatError p), emit (LstatSync p) w)
      | Some (File c) \<Rightarrow> (Inr True, emit (LstatSync p) w)
      | Some Directory \<Rightarrow> (Inr False, emit (LstatSync p) w))"

text \<open>
  \<^verbatim>\<open>grunt.file.read(p)\<close>: the text of a regular file, as grunt decodes it; it throws for
  anything else.
\<close>

definition grunt_file_read :: "string \<Rightarrow> world \<Rightarrow> (error + string) \<times> world" where
  "grunt_file_read p w =
     (case nodes w p of
        Some (File c) \<Rightarrow> (Inr c, emit (ReadFile p) w)
      | Some Directory \<Rightarrow> (Inl (ReadError p), emit (ReadFile p) w)
      | None \<Rightarrow> (Inl (ReadError p), emit (ReadFile p) w))"

text \<open>\<^verbatim>\<open>grunt.file.write(p, text)\<close>.\<close>

definition grunt_file_write :: "string \<Rightarrow> string \<Rightarrow> world \<Rightarrow> world" where
  "grunt_file_write p c w = emit (WriteFile p c) (w\<lparr>nodes := (nodes w)(p \<mapsto> File c)\<rparr>)"

text \<open>
  The functions of the host that the task takes as given: \<^verbatim>\<open>path.resolve\<close> (the
  absolute path of a path), \<^verbatim>\<open>grunt.file.expand\<close> (the paths a pattern matches) and
  \<^verbatim>\<open>new RegExp\<close> (the regular expression of a pattern source, or the error it throws).
\<close>

record host =
  resolve :: "string \<Rightarrow> string"
  expand :: "string \<Rightarrow> string list"
  new_RegExp :: "string \<Rightarrow> error + matcher"

section \<open>The task\<close>

text \<open>
  The options as \<^verbatim>\<open>bundlecache\<close> receives them from the task: \<open>base\<close> is an array of
  pattern sources, \<open>filters\<close> maps an extension to a function from text to text.
\<close>

record options =
  base :: "string list"
  filters :: "string \<Rightarrow> (string \<Rightarrow> string) option"

text \<open>The \<open>files\<close> argument: one pattern or an array of patterns.\<close>

datatype files_arg = Str string | Arr "string list"

text \<open>\<^verbatim>\<open>if (typeof(files) === 'string') files = [ files ];\<close>\<close>

definition to_array :: "files_arg \<Rightarrow> string list" where
  "to_array files = (case files of Str s \<Rightarrow> [s] | Arr ps \<Rightarrow> ps)"

text \<open>\<^verbatim>\<open>options.base.map(function(base) { return new RegExp('^' + base); })\<close>.\<close>

fun map_RegExp :: "host \<Rightarrow> string list \<Rightarrow> error + matcher list" where
  "map_RegExp h [] = Inr []"
| "map_RegExp h (b # bs) =
     (case new_RegExp h (CHR ''^'' # b) of
        Inl e \<Rightarrow> Inl e
      | Inr re \<Rightarrow> (case map_RegExp h bs of Inl e \<Rightarrow> Inl e | Inr res \<Rightarrow> Inr (re # res)))"

text \<open>\<^verbatim>\<open>baseRe.forEach(function(re) { relPath = relPath.replace(re, ''); })\<close>.\<close>

definition strip_base :: "matcher list \<Rightarrow> string \<Rightarrow> string" where
  "strip_base baseRe filePath = foldl replace_empty filePath baseRe"

text \<open>The files of all patterns: \<^verbatim>\<open>files.reduce(..., [])\<close> with \<^verbatim>\<open>all.concat(files)\<close>.\<close>

definition expand_all :: "host \<Rightarrow> string list \<Rightarrow> string list" where
  "expand_all h patterns = foldl (\<lambda>all template. all @ expand h template) [] patterns"

text \<open>\<^verbatim>\<open>files.filter(fs.existsSync)\<close>.\<close>

fun filter_existsSync :: "string list \<Rightarrow> world \<Rightarrow> string list \<times> world" where
  "filter_existsSync [] w = ([], w)"
| "filter_existsSync (p # ps) w =
     (case existsSync p w of
        (b, w1) \<Rightarrow>
          (case filter_existsSync ps w1 of
             (qs, w2) \<Rightarrow> (if b then p # qs else qs, w2)))"

definition script_tag :: "string \<Rightarrow> string \<Rightarrow> string" where
  \<open>script_tag relPath content =
     ''<script type="text/ng-template" id="'' @ relPath @ ''">\<newline>'' @
       content @
     ''\<newline></script>''\<close>

text \<open>
  The filter of the extension, when the options have one (lines 98 to 101):
  \<^verbatim>\<open>var filter = options.filters[ext]; if (filter) content = filter(content);\<close>
\<close>

definition apply_filter :: "options \<Rightarrow> string \<Rightarrow> string \<Rightarrow> string" where
  "apply_filter opts filePath content =
     (let ext = extname filePath
      in case filters opts ext of
           Some flt \<Rightarrow> flt content
         | None \<Rightarrow> content)"

text \<open>The function mapped over the existing files (lines 90 to 108).\<close>

definition make_tag :: "matcher list \<Rightarrow> options \<Rightarrow> string \<Rightarrow> world \<Rightarrow> (error + string) \<times> world" where
  "make_tag baseRe opts filePath w =
     (let relPath = strip_base baseRe filePath
      in case grunt_file_read filePath w of
           (Inl e, w1) \<Rightarrow> (Inl e, w1)
         | (Inr content, w1) \<Rightarrow>
             (let content' = apply_filter opts filePath content
              in (Inr (script_tag relPath content'), w1)))"

fun map_make_tag ::
  "matcher list \<Rightarrow> options \<Rightarrow> string list \<Rightarrow> world \<Rightarrow> (error + string list) \<times> world" where
  "map_make_tag baseRe opts [] w = (Inr [], w)"
| "map_make_tag baseRe opts (p # ps) w =
     (case make_tag baseRe opts p w of
        (Inl e, w1) \<Rightarrow> (Inl e, w1)
      | (Inr t, w1) \<Rightarrow>
          (case map_make_tag baseRe opts ps w1 of
             (Inl e, w2) \<Rightarrow> (Inl e, w2)
           | (Inr ts, w2) \<Rightarrow> (Inr (t # ts), w2)))"

text \<open>The insertion of the tags into the destination (lines 111 to 116).\<close>

definition insert_tags :: "string \<Rightarrow> string list \<Rightarrow> world \<Rightarrow> (error + string) \<times> world" where
  "insert_tags destination tags w =
     (case grunt_file_read destination w of
        (Inl e, w1) \<Rightarrow> (Inl e, w1)
      | (Inr html, w1) \<Rightarrow>
          (let idx = indexOf html ''</body>'';
               html' = slice html 0 idx @ join tags ''\<newline>'' @ slice_from html idx
           in (Inr html', grunt_file_write destination html' w1)))"

definition warn_message :: "string \<Rightarrow> string" where
  "warn_message destination =
     ''Destination path '' @ destination @ '' does not exist or is not a File.''"

text \<open>
  Modelled from the spec: \<^verbatim>\<open>grunt.fail.warn\<close> belongs to the task runner, not to this
  repository. The specification has the operation fail fatally at this call, without a
  retry, so the call of \<^verbatim>\<open>bundlecache\<close> ends there with the warning as its error. (A
  grunt started with \<^verbatim>\<open>--force\<close> goes on after a warning; that mode is not modelled.)
\<close>

definition grunt_fail_warn :: "string \<Rightarrow> world \<Rightarrow> (error + string) \<times> world" where
  "grunt_fail_warn message w = (Inl (FailWarn message), w)"

text \<open>
  \<^verbatim>\<open>bundlecache(destination, files, options)\<close>. The result is the updated HTML or the
  error that stopped the call, together with the world the call leaves. The second
  operand of \<^verbatim>\<open>||\<close> is evaluated only when the first is false, so \<^verbatim>\<open>lstatSync\<close> is called
  only for a destination that exists.
\<close>

definition bundlecache ::
  "host \<Rightarrow> string \<Rightarrow> files_arg \<Rightarrow> options \<Rightarrow> world \<Rightarrow> (error + string) \<times> world" where
  "bundlecache h destination files opts w =
     (case map_RegExp h (base opts) of
        Inl e \<Rightarrow> (Inl e, w)
      | Inr baseRe \<Rightarrow>
          (let destination' = resolve h destination
           in case existsSync destination' w of
                (False, w1) \<Rightarrow> grunt_fail_warn (warn_message destination') w1
              | (True, w1) \<Rightarrow>
                  (case lstatSync_isFile destination' w1 of
                     (Inl e, w2) \<Rightarrow> (Inl e, w2)
                   | (Inr False, w2) \<Rightarrow> grunt_fail_warn (warn_message destination') w2
                   | (Inr True, w2) \<Rightarrow>
                       (let all_files = expand_all h (to_array files)
                        in case filter_existsSync all_files w2 of
                             (existing, w3) \<Rightarrow>
                               (case map_make_tag baseRe opts existing w3 of
                                  (Inl e, w4) \<Rightarrow> (Inl e, w4)
                                | (Inr tags, w4) \<Rightarrow> insert_tags destination' tags w4)))))"

section \<open>Examples\<close>

text \<open>
  A host for the examples: the working directory is \<^verbatim>\<open>/site\<close>, a pattern without a
  wildcard expands to the path it names, and the regular expressions are those of the
  fragment.
\<close>

definition example_host :: host where
  "example_host =
     \<lparr>resolve = (\<lambda>p. ''/site/'' @ p),
      expand = (\<lambda>pattern. [pattern]),
      new_RegExp = RegExp_fragment\<rparr>"

definition no_options :: options where
  "no_options = \<lparr>base = [], filters = Map.empty\<rparr>"

definition example_world :: world where
  "example_world =
     \<lparr>nodes = [''/site/index.html'' \<mapsto> File ''<html><body>X</body></html>'',
               ''/site/bare.html'' \<mapsto> File ''<p>x</p>'',
               ''/site/dir'' \<mapsto> Directory,
               ''a.html'' \<mapsto> File ''hello'',
               ''b.html'' \<mapsto> File ''bye'',
               ''n.txt'' \<mapsto> File ''abc'',
               ''src/lib'' \<mapsto> Directory,
               ''src/lib/x.html'' \<mapsto> File ''widget''],
      log = []\<rparr>"

section \<open>Properties\<close>

subsection \<open>Strings and lists\<close>

lemma indexOf_at_minus1: "indexOf_at k s pat = - 1 \<longleftrightarrow> \<not> sublist pat s"
  by (induction s arbitrary: k) (auto simp: sublist_Cons_right)

lemma indexOf_at_first:
  "(\<forall>j<length pre. \<not> prefix pat (drop j (pre @ pat @ post))) \<Longrightarrow>
   indexOf_at k (pre @ pat @ post) pat = int (k + length pre)"
proof (induction pre arbitrary: k)
  case Nil
  have "prefix pat (pat @ post)" by simp
  then show ?case by (cases "pat @ post") (simp_all del: same_prefix_nil)
next
  case (Cons a pre)
  from Cons.prems have "\<not> prefix pat (a # pre @ pat @ post)" by fastforce
  moreover from Cons.prems have "\<forall>j<length pre. \<not> prefix pat (drop j (pre @ pat @ post))"
    by fastforce
  ultimately show ?case using Cons.IH [of "Suc k"] by simp
qed

lemma indexOf_at_found:
  "indexOf_at k s pat \<noteq> - 1 \<Longrightarrow>
   \<exists>j\<le>length s. indexOf_at k s pat = int (k + j) \<and> prefix pat (drop j s)
      \<and> (\<forall>i<j. \<not> prefix pat (drop i s))"
proof (induction s arbitrary: k)
  case Nil
  then show ?case by (auto split: if_splits)
next
  case (Cons c cs)
  show ?case
  proof (cases "prefix pat (c # cs)")
    case True
    then show ?thesis by (intro exI [of _ 0]) simp
  next
    case False
    with Cons.prems have "indexOf_at (Suc k) cs pat \<noteq> - 1" by simp
    from Cons.IH [OF this] obtain j where j: "j \<le> length cs"
      "indexOf_at (Suc k) cs pat = int (Suc k + j)" "prefix pat (drop j cs)"
      "\<forall>i<j. \<not> prefix pat (drop i cs)" by blast
    have "\<forall>i<Suc j. \<not> prefix pat (drop i (c # cs))"
    proof (intro allI impI)
      fix i assume "i < Suc j"
      then show "\<not> prefix pat (drop i (c # cs))"
        using False j(4) by (cases i) auto
    qed
    with j False show ?thesis by (intro exI [of _ "Suc j"]) simp
  qed
qed

lemma indexOf_first:
  "\<forall>j<length pre. \<not> prefix pat (drop j (pre @ pat @ post)) \<Longrightarrow>
   indexOf (pre @ pat @ post) pat = int (length pre)"
  using indexOf_at_first [of pre pat post 0] by (simp add: indexOf_def)

lemma indexOf_range:
  "indexOf s pat = - 1 \<or> (0 \<le> indexOf s pat \<and> indexOf s pat \<le> int (length s))"
  using indexOf_at_found [of 0 s pat] by (auto simp: indexOf_def)

lemma slice_to_nonneg:
  "0 \<le> i \<Longrightarrow> slice s 0 i = take (nat i) s"
  by (auto simp: slice_def slice_index_def Let_def min_def)

lemma slice_from_nonneg:
  "0 \<le> i \<Longrightarrow> slice_from s i = drop (nat i) s"
  by (auto simp: slice_from_def slice_def slice_index_def Let_def min_def)

lemma slice_to_minus1: "slice s 0 (- 1) = butlast s"
  by (auto simp: slice_def slice_index_def Let_def butlast_conv_take max_def nat_diff_distrib)

lemma slice_from_minus1: "slice_from s (- 1) = (if s = [] then [] else [last s])"
proof (cases s rule: rev_cases)
  case Nil
  then show ?thesis by (simp add: slice_from_def slice_def slice_index_def)
next
  case (snoc ys y)
  then show ?thesis by (simp add: slice_from_def slice_def slice_index_def)
qed

lemma slice_indexOf_id:
  "slice s 0 (indexOf s pat) @ slice_from s (indexOf s pat) = s"
  using indexOf_range [of s pat]
  by (auto simp: slice_to_nonneg slice_from_nonneg slice_to_minus1 slice_from_minus1)

lemma splice_at_marker:
  assumes "\<forall>j<length pre. \<not> prefix pat (drop j (pre @ pat @ post))"
  shows "slice (pre @ pat @ post) 0 (indexOf (pre @ pat @ post) pat) = pre"
    and "slice_from (pre @ pat @ post) (indexOf (pre @ pat @ post) pat) = pat @ post"
  by (simp_all add: indexOf_first [OF assms] slice_to_nonneg slice_from_nonneg)

lemma foldl_join: "foldl (\<lambda>r e. r @ sep @ e) x rest = x @ concat (map ((@) sep) rest)"
  by (induction rest arbitrary: x) auto

lemma join_Nil: "join [] sep = []"
  by (simp add: join_def)

lemma join_Cons: "join (x # xs) sep = x @ concat (map ((@) sep) xs)"
  by (simp add: join_def foldl_join)

lemma join_cases:
  "join xs sep = (case xs of [] \<Rightarrow> [] | x # rest \<Rightarrow> x @ concat (map ((@) sep) rest))"
  by (cases xs) (simp_all add: join_Nil join_Cons)

lemma foldl_append_concat: "foldl (\<lambda>all t. all @ f t) acc ts = acc @ concat (map f ts)"
  by (induction ts arbitrary: acc) simp_all

lemma expand_all_concat: "expand_all h patterns = concat (map (expand h) patterns)"
  by (simp add: expand_all_def foldl_append_concat)

lemma filter_removeAll_absent: "\<not> P p \<Longrightarrow> filter P (removeAll p xs) = filter P xs"
  by (induction xs) auto

subsection \<open>Paths\<close>

text \<open>The examples of the Node.js documentation of \<^verbatim>\<open>path.extname\<close>, and two more.\<close>

lemma extname_examples:
  "extname ''index.html'' = ''.html''"
  "extname ''index.coffee.md'' = ''.md''"
  "extname ''index.'' = ''.''"
  "extname ''index'' = []"
  "extname ''.index'' = []"
  "extname ''.index.md'' = ''.md''"
  "extname ''app/js.d/view'' = []"
  "extname ''..'' = []"
  by (simp_all add: extname_def basename_def)

subsection \<open>The calls on the file system\<close>

lemma existsSync_nodes: "nodes (snd (existsSync p w)) = nodes w"
  by (simp add: existsSync_def emit_def)

lemma lstatSync_isFile_nodes: "nodes (snd (lstatSync_isFile p w)) = nodes w"
  by (simp add: lstatSync_isFile_def emit_def split: option.splits node.splits)

lemma filter_existsSync_eq:
  "filter_existsSync ps w =
     (filter (\<lambda>p. nodes w p \<noteq> None) ps, w\<lparr>log := log w @ map ExistsSync ps\<rparr>)"
  by (induction ps arbitrary: w) (simp_all add: existsSync_def emit_def)

lemma filter_existsSync_nodes: "nodes (snd (filter_existsSync ps w)) = nodes w"
  by (simp add: filter_existsSync_eq)

lemma make_tag_file:
  "nodes w p = Some (File raw) \<Longrightarrow>
   make_tag baseRe opts p w =
     (Inr (script_tag (strip_base baseRe p)
            (apply_filter opts p raw)),
      w\<lparr>log := log w @ [ReadFile p]\<rparr>)"
  by (simp add: make_tag_def grunt_file_read_def emit_def Let_def)

lemma make_tag_nodes: "nodes (snd (make_tag baseRe opts p w)) = nodes w"
  by (simp add: make_tag_def grunt_file_read_def emit_def Let_def
      split: option.splits node.splits)

lemma map_make_tag_nodes: "nodes (snd (map_make_tag baseRe opts ps w)) = nodes w"
proof (induction ps arbitrary: w)
  case Nil
  then show ?case by simp
next
  case (Cons p ps)
  show ?case
    using make_tag_nodes [of baseRe opts p w] Cons.IH [of "snd (make_tag baseRe opts p w)"]
    by (auto split: prod.splits sum.splits)
qed

lemma map_make_tag_files:
  "\<forall>p\<in>set ps. nodes w p = Some (File (content p)) \<Longrightarrow>
   map_make_tag baseRe opts ps w =
     (Inr (map (\<lambda>p. script_tag (strip_base baseRe p)
                   (apply_filter opts p (content p))) ps),
      w\<lparr>log := log w @ map ReadFile ps\<rparr>)"
proof (induction ps arbitrary: w)
  case Nil
  then show ?case by simp
next
  case (Cons p ps)
  let ?w1 = "w\<lparr>log := log w @ [ReadFile p]\<rparr>"
  from Cons.prems have "\<forall>q\<in>set ps. nodes ?w1 q = Some (File (content q))" by simp
  from Cons.IH [OF this] Cons.prems show ?case
    by (simp add: make_tag_file)
qed

lemma insert_tags_file:
  "nodes w d = Some (File html) \<Longrightarrow>
   insert_tags d tags w =
     (Inr (slice html 0 (indexOf html ''</body>'') @ join tags ''\<newline>'' @
            slice_from html (indexOf html ''</body>'')),
      w\<lparr>nodes := (nodes w)(d \<mapsto> File
              (slice html 0 (indexOf html ''</body>'') @ join tags ''\<newline>'' @
               slice_from html (indexOf html ''</body>''))),
        log := log w @ [ReadFile d, WriteFile d
              (slice html 0 (indexOf html ''</body>'') @ join tags ''\<newline>'' @
               slice_from html (indexOf html ''</body>''))]\<rparr>)"
  by (simp add: insert_tags_def grunt_file_read_def grunt_file_write_def emit_def Let_def)

lemma insert_tags_nodes:
  assumes "nodes w d = Some (File html)"
  shows "nodes (snd (insert_tags d tags w)) =
     (nodes w)(d \<mapsto> File (slice html 0 (indexOf html ''</body>'') @ join tags ''\<newline>'' @
        slice_from html (indexOf html ''</body>'')))"
  by (simp add: insert_tags_file [OF assms])

subsection \<open>A run of the task\<close>

lemma bundlecache_runs:
  assumes re: "map_RegExp h (base opts) = Inr baseRe"
    and dest: "nodes w (resolve h destination) = Some (File html)"
    and srcs: "\<forall>p\<in>set (expand_all h (to_array files)).
                 nodes w p = None \<or> nodes w p = Some (File (content p))"
  shows "bundlecache h destination files opts w =
     (Inr (slice html 0 (indexOf html ''</body>'') @
           join (map (\<lambda>p. script_tag (strip_base baseRe p)
                   (apply_filter opts p (content p)))
                 (filter (\<lambda>p. nodes w p \<noteq> None) (expand_all h (to_array files))))
             ''\<newline>'' @
           slice_from html (indexOf html ''</body>'')),
      w\<lparr>nodes := (nodes w)(resolve h destination \<mapsto> File
           (slice html 0 (indexOf html ''</body>'') @
           join (map (\<lambda>p. script_tag (strip_base baseRe p)
                   (apply_filter opts p (content p)))
                 (filter (\<lambda>p. nodes w p \<noteq> None) (expand_all h (to_array files))))
             ''\<newline>'' @
           slice_from html (indexOf html ''</body>''))),
        log := log w @ [ExistsSync (resolve h destination), LstatSync (resolve h destination)] @
           map ExistsSync (expand_all h (to_array files)) @
           map ReadFile (filter (\<lambda>p. nodes w p \<noteq> None) (expand_all h (to_array files))) @
           [ReadFile (resolve h destination),
            WriteFile (resolve h destination)
           (slice html 0 (indexOf html ''</body>'') @
           join (map (\<lambda>p. script_tag (strip_base baseRe p)
                   (apply_filter opts p (content p)))
                 (filter (\<lambda>p. nodes w p \<noteq> None) (expand_all h (to_array files))))
             ''\<newline>'' @
           slice_from html (indexOf html ''</body>''))]\<rparr>)"
proof -
  let ?d = "resolve h destination"
  let ?all = "expand_all h (to_array files)"
  let ?ex = "filter (\<lambda>p. nodes w p \<noteq> None) ?all"
  let ?tags = "map (\<lambda>p. script_tag (strip_base baseRe p)
                   (apply_filter opts p (content p))) ?ex"
  let ?w1 = "w\<lparr>log := log w @ [ExistsSync ?d]\<rparr>"
  let ?w2 = "?w1\<lparr>log := log ?w1 @ [LstatSync ?d]\<rparr>"
  let ?w3 = "?w2\<lparr>log := log ?w2 @ map ExistsSync ?all\<rparr>"
  let ?w4 = "?w3\<lparr>log := log ?w3 @ map ReadFile ?ex\<rparr>"
  have chk: "existsSync ?d w = (True, ?w1)"
    using dest by (simp add: existsSync_def emit_def)
  have st: "lstatSync_isFile ?d ?w1 = (Inr True, ?w2)"
    using dest by (simp add: lstatSync_isFile_def emit_def)
  have flt: "filter_existsSync ?all ?w2 = (filter (\<lambda>p. nodes ?w2 p \<noteq> None) ?all, ?w3)"
    by (rule filter_existsSync_eq)
  have ex: "filter (\<lambda>p. nodes ?w2 p \<noteq> None) ?all = ?ex"
    by simp
  have "\<forall>p\<in>set ?ex. nodes ?w3 p = Some (File (content p))"
    using srcs by auto
  from map_make_tag_files [OF this, of baseRe opts]
  have tags: "map_make_tag baseRe opts ?ex ?w3 = (Inr ?tags, ?w4)" .
  have "nodes ?w4 ?d = Some (File html)"
    using dest by simp
  note ins = insert_tags_file [OF this, of ?tags]
  have run: "bundlecache h destination files opts w = insert_tags ?d ?tags ?w4"
    by (simp only: bundlecache_def re chk st flt ex tags Let_def sum.case prod.case bool.case)
  show ?thesis
    unfolding run ins by simp
qed

lemma bundlecache_cases:
  "(\<exists>e w'. bundlecache h destination files opts w = (Inl e, w') \<and> nodes w' = nodes w) \<or>
   (\<exists>tags w'. bundlecache h destination files opts w =
        insert_tags (resolve h destination) tags w' \<and> nodes w' = nodes w)"
proof (cases "map_RegExp h (base opts)")
  case (Inl e)
  then show ?thesis by (simp add: bundlecache_def)
next
  case (Inr baseRe)
  let ?d = "resolve h destination"
  obtain b w1 where e: "existsSync ?d w = (b, w1)" by force
  with existsSync_nodes [of ?d w] have n1: "nodes w1 = nodes w" by simp
  obtain r w2 where l: "lstatSync_isFile ?d w1 = (r, w2)" by force
  with lstatSync_isFile_nodes [of ?d w1] n1 have n2: "nodes w2 = nodes w" by simp
  obtain ex w3 where f: "filter_existsSync (expand_all h (to_array files)) w2 = (ex, w3)"
    by force
  with filter_existsSync_nodes [of "expand_all h (to_array files)" w2] n2
  have n3: "nodes w3 = nodes w" by simp
  obtain t w4 where m: "map_make_tag baseRe opts ex w3 = (t, w4)" by force
  with map_make_tag_nodes [of baseRe opts ex w3] n3 have n4: "nodes w4 = nodes w" by simp
  show ?thesis
  proof (cases b)
    case False
    then show ?thesis by (simp add: bundlecache_def grunt_fail_warn_def Inr e n1)
  next
    case True
    note b = this
    show ?thesis
    proof (cases r)
      case (Inl err)
      then show ?thesis by (simp add: bundlecache_def Inr e b l n2)
    next
      case (Inr isf)
      note r = this
      show ?thesis
      proof (cases isf)
        case False
        then show ?thesis
          by (simp add: bundlecache_def grunt_fail_warn_def
              \<open>map_RegExp h (base opts) = Inr baseRe\<close> e b l r n2)
      next
        case True
        with n4 show ?thesis
          by (cases t) (auto simp add: bundlecache_def \<open>map_RegExp h (base opts) = Inr baseRe\<close> e b l r f m)
      qed
    qed
  qed
qed

lemma bundlecache_nodes:
  assumes dest: "nodes w (resolve h destination) = Some (File html)"
  shows "\<exists>ins. nodes (snd (bundlecache h destination files opts w)) =
     (nodes w)(resolve h destination \<mapsto>
        File (slice html 0 (indexOf html ''</body>'') @ ins @
              slice_from html (indexOf html ''</body>'')))"
proof -
  let ?d = "resolve h destination"
  let ?idx = "indexOf html ''</body>''"
  from bundlecache_cases [of h destination files opts w] show ?thesis
  proof (elim disjE exE conjE)
    fix e w'
    assume "bundlecache h destination files opts w = (Inl e, w')" "nodes w' = nodes w"
    then have "nodes (snd (bundlecache h destination files opts w)) =
        (nodes w)(?d \<mapsto> File (slice html 0 ?idx @ [] @ slice_from html ?idx))"
      using dest by (simp add: slice_indexOf_id fun_upd_idem)
    then show ?thesis by blast
  next
    fix tags w'
    assume r: "bundlecache h destination files opts w = insert_tags ?d tags w'"
      and n: "nodes w' = nodes w"
    from dest n have "nodes w' ?d = Some (File html)" by simp
    from insert_tags_nodes [OF this, of tags] r n show ?thesis by auto
  qed
qed

subsection \<open>Regular expressions of the fragment\<close>

lemma parse_disjunction_no_bar:
  "CHR ''|'' \<notin> set s \<Longrightarrow>
   parse_disjunction acc s = map_option (\<lambda>a. [a]) (parse_alternative (rev acc @ s))"
  by (induction s arbitrary: acc) auto

lemma RegExp_anchored_single:
  assumes "CHR ''|'' \<notin> set b" and "parse_alternative b = Some as"
  shows "RegExp (CHR ''^'' # b) = Inr [Bol # as]"
  using assms by (simp add: RegExp_def parse_disjunction_no_bar parse_atom_def)

lemma exec_at_anchored_later: "0 < i \<Longrightarrow> exec_at [Bol # as] i s = None"
  by (induction s arbitrary: i) simp_all

lemma exec_anchored:
  "exec [Bol # as] s = map_option (Pair 0) (match_atoms as 0 s)"
  by (cases s) (auto simp: exec_def exec_at_anchored_later split: option.splits)

lemma replace_empty_anchored:
  "replace_empty s (exec [Bol # as]) =
     (case match_atoms as 0 s of None \<Rightarrow> s | Some n \<Rightarrow> drop n s)"
  by (simp add: replace_empty_def exec_anchored split: option.splits)

lemma parse_alternative_literal: "literal b \<Longrightarrow> parse_alternative b = Some (map Lit b)"
  by (induction b) (auto simp: literal_def parse_atom_def)

lemma replace_empty_anchored_strip:
  assumes "CHR ''|'' \<notin> set b" and "RegExp b = Inr re"
  shows "\<exists>re'. RegExp (CHR ''^'' # b) = Inr re' \<and>
           replace_empty p (exec re') = anchored_strip p re"
proof -
  from assms obtain as where as: "parse_alternative b = Some as" "re = [as]"
    by (auto simp: RegExp_def parse_disjunction_no_bar split: option.splits)
  from RegExp_anchored_single [OF assms(1) as(1)] as(2) show ?thesis
    by (simp add: replace_empty_anchored anchored_strip_def split: option.splits)
qed

lemma strip_base_Cons: "strip_base (re # res) p = strip_base res (replace_empty p re)"
  by (simp add: strip_base_def)

lemma match_atoms_literal:
  "match_atoms (map Lit b) i s = (if prefix b s then Some (length b) else None)"
proof (induction b arbitrary: i s)
  case Nil
  then show ?case by simp
next
  case (Cons a b)
  then show ?case by (cases s) auto
qed

lemma map_RegExp_literal:
  assumes "literal b"
  shows "map_RegExp example_host [b] = Inr [exec [Bol # map Lit b]]"
proof -
  from assms have "CHR ''|'' \<notin> set b"
    by (auto simp: literal_def list_all_iff)
  from RegExp_anchored_single [OF this parse_alternative_literal [OF assms]]
  show ?thesis by (simp add: example_host_def RegExp_fragment_def)
qed

lemma strip_base_literal:
  "strip_base [exec [Bol # map Lit b]] p = (if prefix b p then drop (length b) p else p)"
  by (simp add: strip_base_def replace_empty_anchored match_atoms_literal)

lemma strip_base_example:
  "map_RegExp example_host [''app/''] = Inr [exec [Bol # map Lit ''app/'']] \<and>
   strip_base [exec [Bol # map Lit ''app/'']] ''app/widgets/x.html'' = ''widgets/x.html''"
proof -
  have "literal ''app/''"
    by (simp add: literal_def other_syntax_chars_def)
  from map_RegExp_literal [OF this]
    strip_base_literal [of "''app/''" "''app/widgets/x.html''"]
  show ?thesis by simp
qed

section \<open>The claims\<close>

text \<open>
  C1. The code has no check for a destination without \<^verbatim>\<open></body>\<close>: no error is raised
  and the destination is written. For the destination text \<^verbatim>\<open><p>x</p>\<close> and the one
  file \<^verbatim>\<open>a.html\<close> the call returns the text with the block put in before its last
  character, and the log ends with the write of that text to the destination.
\<close>

theorem bundlecache_missing_marker_overwrites:
  \<open>bundlecache example_host ''bare.html'' (Str ''a.html'') no_options example_world =
     (Inr ''<p>x</p<script type="text/ng-template" id="a.html">\<newline>hello\<newline></script>>'',
      \<lparr>nodes = (nodes example_world)(''/site/bare.html'' \<mapsto>
         File ''<p>x</p<script type="text/ng-template" id="a.html">\<newline>hello\<newline></script>>''),
       log = [ExistsSync ''/site/bare.html'', LstatSync ''/site/bare.html'',
              ExistsSync ''a.html'', ReadFile ''a.html'', ReadFile ''/site/bare.html'',
              WriteFile ''/site/bare.html''
                ''<p>x</p<script type="text/ng-template" id="a.html">\<newline>hello\<newline></script>>'']\<rparr>)\<close>
proof -
  have 1: "map_RegExp example_host (base no_options) = Inr []"
    by (simp add: no_options_def)
  have 2: "nodes example_world (resolve example_host ''bare.html'') = Some (File ''<p>x</p>'')"
    by (simp add: example_world_def example_host_def)
  have 3: "\<forall>p\<in>set (expand_all example_host (to_array (Str ''a.html''))).
      nodes example_world p = None \<or> nodes example_world p = Some (File ((\<lambda>_. ''hello'') p))"
    by (simp add: expand_all_def to_array_def example_host_def example_world_def)
  have 4: "indexOf ''<p>x</p>'' ''</body>'' = - 1"
    by (simp add: indexOf_def)
  show ?thesis
    unfolding bundlecache_runs [OF 1 2 3]
    by (simp add: 4 slice_to_minus1 slice_from_minus1 expand_all_def to_array_def
        example_host_def example_world_def strip_base_def apply_filter_def no_options_def
        script_tag_def join_def)
qed

text \<open>
  C2. When the destination is a regular file whose text is \<open>pre\<close>, then the first
  occurrence of \<^verbatim>\<open></body>\<close>, then \<open>post\<close>, and every resolved path that exists is a
  regular file, the call returns \<open>pre\<close>, the tag blocks joined by a newline, the marker and
  \<open>post\<close>. The block of a file is the opening tag with the identifier of the file (its
  path after the base patterns were stripped), a newline, the content after the filter
  of its extension, a newline and the closing tag. The witness is the example of the
  specification: one file \<^verbatim>\<open>a.html\<close> with the text \<^verbatim>\<open>hello\<close>, no base and no filter.
\<close>

theorem bundlecache_inserts_script_tags:
  assumes re: \<open>map_RegExp h (base opts) = Inr baseRe\<close>
    and dest: \<open>nodes w (resolve h destination) = Some (File (pre @ ''</body>'' @ post))\<close>
    and first: \<open>\<forall>j<length pre. \<not> prefix ''</body>'' (drop j (pre @ ''</body>'' @ post))\<close>
    and srcs: \<open>\<forall>p\<in>set (expand_all h (to_array files)).
                 nodes w p = None \<or> nodes w p = Some (File (content p))\<close>
  shows \<open>fst (bundlecache h destination files opts w) =
     Inr (pre @
          join (map (\<lambda>p. ''<script type="text/ng-template" id="'' @ strip_base baseRe p @
                         ''">\<newline>'' @ apply_filter opts p (content p) @ ''\<newline></script>'')
                 (filter (\<lambda>p. nodes w p \<noteq> None) (expand_all h (to_array files))))
            ''\<newline>'' @
          ''</body>'' @ post)\<close>
  using bundlecache_runs [OF re dest srcs] splice_at_marker [OF first]
  by (simp add: script_tag_def)

theorem bundlecache_inserts_script_tags_witness:
  \<open>fst (bundlecache example_host ''index.html'' (Arr [''a.html'']) no_options example_world) =
     Inr ''<html><body>X<script type="text/ng-template" id="a.html">\<newline>hello\<newline></script></body></html>''\<close>
proof -
  have 1: "map_RegExp example_host (base no_options) = Inr []"
    by (simp add: no_options_def)
  have 2: "nodes example_world (resolve example_host ''index.html'') =
      Some (File (''<html><body>X'' @ ''</body>'' @ ''</html>''))"
    by (simp add: example_world_def example_host_def)
  have 3: "\<forall>j<length ''<html><body>X''.
      \<not> prefix ''</body>'' (drop j (''<html><body>X'' @ ''</body>'' @ ''</html>''))"
    by (simp add: All_less_Suc)
  have 4: "\<forall>p\<in>set (expand_all example_host (to_array (Arr [''a.html'']))).
      nodes example_world p = None \<or> nodes example_world p = Some (File ((\<lambda>_. ''hello'') p))"
    by (simp add: expand_all_def to_array_def example_host_def example_world_def)
  from bundlecache_inserts_script_tags [OF 1 2 3 4] show ?thesis
    by (simp add: expand_all_def to_array_def example_host_def example_world_def
        strip_base_def apply_filter_def no_options_def join_def)
qed

text \<open>
  C3. When the text of the destination contains \<^verbatim>\<open></body>\<close>, then for every list of
  patterns and all options, the file system after the call is the file system before it
  but for the destination, whose text is the old text up to the index \<open>n\<close> of the first
  marker, some insertion (empty when the call fails), and the old text from \<open>n\<close> on.
\<close>

theorem bundlecache_frame:
  assumes dest: "nodes w (resolve h destination) = Some (File html)"
    and marker: "sublist ''</body>'' html"
  shows "\<exists>n ins. int n = indexOf html ''</body>'' \<and>
           prefix ''</body>'' (drop n html) \<and>
           nodes (snd (bundlecache h destination files opts w)) =
             (nodes w)(resolve h destination \<mapsto> File (take n html @ ins @ drop n html))"
proof -
  from marker have "indexOf_at 0 html ''</body>'' \<noteq> - 1"
    by (simp add: indexOf_at_minus1)
  from indexOf_at_found [OF this] obtain n where
    n: "indexOf html ''</body>'' = int n" "prefix ''</body>'' (drop n html)"
    by (auto simp: indexOf_def)
  from bundlecache_nodes [OF dest, of files opts] obtain ins where
    "nodes (snd (bundlecache h destination files opts w)) =
       (nodes w)(resolve h destination \<mapsto>
          File (slice html 0 (indexOf html ''</body>'') @ ins @
                slice_from html (indexOf html ''</body>'')))"
    by blast
  with n have "int n = indexOf html ''</body>'' \<and>
           prefix ''</body>'' (drop n html) \<and>
           nodes (snd (bundlecache h destination files opts w)) =
             (nodes w)(resolve h destination \<mapsto> File (take n html @ ins @ drop n html))"
    by (simp add: slice_to_nonneg slice_from_nonneg)
  then show ?thesis by blast
qed

theorem bundlecache_frame_witness:
  "\<exists>n ins. int n = indexOf ''<html><body>X</body></html>'' ''</body>'' \<and>
     prefix ''</body>'' (drop n ''<html><body>X</body></html>'') \<and>
     nodes (snd (bundlecache example_host ''index.html'' (Arr [''a.html'', ''src/lib'', ''b.html''])
                   no_options example_world)) =
       (nodes example_world)(''/site/index.html'' \<mapsto>
          File (take n ''<html><body>X</body></html>'' @ ins @
                drop n ''<html><body>X</body></html>''))"
proof -
  have 1: "nodes example_world (resolve example_host ''index.html'') =
      Some (File ''<html><body>X</body></html>'')"
    by (simp add: example_world_def example_host_def)
  have 2: "sublist ''</body>'' ''<html><body>X</body></html>''"
    by (simp add: sublist_Cons_right)
  have 3: "resolve example_host ''index.html'' = ''/site/index.html''"
    by (simp add: example_host_def)
  from bundlecache_frame [OF 1 2, of "Arr [''a.html'', ''src/lib'', ''b.html'']" no_options]
  show ?thesis
    unfolding 3 .
qed

text \<open>
  C4. The anchor of \<^verbatim>\<open>new RegExp('^' + base)\<close> belongs to the first alternative only. With
  the base \<^verbatim>\<open>app/|lib/\<close> the path \<^verbatim>\<open>src/lib/x.html\<close> loses the \<^verbatim>\<open>lib/\<close> in its middle and
  the identifier is \<^verbatim>\<open>src/x.html\<close>, in \<open>strip_base\<close> and in the output of a whole call; a
  strip anchored at the start (\<open>anchored_strip\<close>) leaves this path as it is. For a base
  without an alternation the two agree (\<open>replace_empty_anchored_strip\<close>), and the base
  \<^verbatim>\<open>app/\<close> turns \<^verbatim>\<open>app/widgets/x.html\<close> into \<^verbatim>\<open>widgets/x.html\<close> (\<open>strip_base_example\<close>).
\<close>

theorem strip_base_alternation_not_anchored:
  \<open>map_RegExp example_host [''app/|lib/''] =
     Inr [exec [[Bol, Lit CHR ''a'', Lit CHR ''p'', Lit CHR ''p'', Lit CHR ''/''],
                [Lit CHR ''l'', Lit CHR ''i'', Lit CHR ''b'', Lit CHR ''/'']]] \<and>
   strip_base
     [exec [[Bol, Lit CHR ''a'', Lit CHR ''p'', Lit CHR ''p'', Lit CHR ''/''],
            [Lit CHR ''l'', Lit CHR ''i'', Lit CHR ''b'', Lit CHR ''/'']]]
     ''src/lib/x.html'' = ''src/x.html'' \<and>
   RegExp ''app/|lib/'' =
     Inr [[Lit CHR ''a'', Lit CHR ''p'', Lit CHR ''p'', Lit CHR ''/''],
          [Lit CHR ''l'', Lit CHR ''i'', Lit CHR ''b'', Lit CHR ''/'']] \<and>
   anchored_strip ''src/lib/x.html''
     [[Lit CHR ''a'', Lit CHR ''p'', Lit CHR ''p'', Lit CHR ''/''],
      [Lit CHR ''l'', Lit CHR ''i'', Lit CHR ''b'', Lit CHR ''/'']] = ''src/lib/x.html'' \<and>
   fst (bundlecache example_host ''index.html'' (Arr [''src/lib/x.html''])
          \<lparr>base = [''app/|lib/''], filters = Map.empty\<rparr> example_world) =
     Inr ''<html><body>X<script type="text/ng-template" id="src/x.html">\<newline>widget\<newline></script></body></html>''\<close>
proof -
  let ?re = "exec [[Bol, Lit CHR ''a'', Lit CHR ''p'', Lit CHR ''p'', Lit CHR ''/''],
                   [Lit CHR ''l'', Lit CHR ''i'', Lit CHR ''b'', Lit CHR ''/'']]"
  let ?opts = "\<lparr>base = [''app/|lib/''], filters = Map.empty\<rparr>"
  have re: "map_RegExp example_host [''app/|lib/''] = Inr [?re]"
    by (simp add: example_host_def RegExp_fragment_def RegExp_def parse_atom_def
        other_syntax_chars_def)
  have strip: "strip_base [?re] ''src/lib/x.html'' = ''src/x.html''"
    by (simp add: strip_base_def replace_empty_def exec_def)
  have 1: "map_RegExp example_host (base ?opts) = Inr [?re]"
    using re by simp
  have 2: "nodes example_world (resolve example_host ''index.html'') =
      Some (File ''<html><body>X</body></html>'')"
    by (simp add: example_world_def example_host_def)
  have 3: "\<forall>p\<in>set (expand_all example_host (to_array (Arr [''src/lib/x.html'']))).
      nodes example_world p = None \<or> nodes example_world p = Some (File ((\<lambda>_. ''widget'') p))"
    by (simp add: expand_all_def to_array_def example_host_def example_world_def)
  have 4: "indexOf ''<html><body>X</body></html>'' ''</body>'' = 13"
    by (simp add: indexOf_def)
  have run: \<open>fst (bundlecache example_host ''index.html'' (Arr [''src/lib/x.html'']) ?opts
          example_world) =
     Inr ''<html><body>X<script type="text/ng-template" id="src/x.html">\<newline>widget\<newline></script></body></html>''\<close>
    unfolding bundlecache_runs [OF 1 2 3]
    by (simp add: 4 strip slice_to_nonneg slice_from_nonneg expand_all_def to_array_def
        example_host_def example_world_def apply_filter_def script_tag_def join_def)
  have parsed: "RegExp ''app/|lib/'' =
     Inr [[Lit CHR ''a'', Lit CHR ''p'', Lit CHR ''p'', Lit CHR ''/''],
          [Lit CHR ''l'', Lit CHR ''i'', Lit CHR ''b'', Lit CHR ''/'']]"
    by (simp add: RegExp_def parse_atom_def other_syntax_chars_def)
  have anchored: "anchored_strip ''src/lib/x.html''
     [[Lit CHR ''a'', Lit CHR ''p'', Lit CHR ''p'', Lit CHR ''/''],
      [Lit CHR ''l'', Lit CHR ''i'', Lit CHR ''b'', Lit CHR ''/'']] = ''src/lib/x.html''"
    by (simp add: anchored_strip_def)
  from re strip parsed anchored run show ?thesis
    by (intro conjI)
qed

text \<open>
  C5. For a regular file with the text \<open>raw\<close>: when the options have a filter \<open>f\<close> for the
  extension of the path, the content of the block is \<open>f raw\<close>; when they have none, it
  is \<open>raw\<close>.
\<close>

theorem make_tag_filters_content:
  assumes "nodes w p = Some (File raw)"
  shows "(\<forall>f. filters opts (extname p) = Some f \<longrightarrow>
            fst (make_tag baseRe opts p w) = Inr (script_tag (strip_base baseRe p) (f raw))) \<and>
         (filters opts (extname p) = None \<longrightarrow>
            fst (make_tag baseRe opts p w) = Inr (script_tag (strip_base baseRe p) raw))"
  by (simp add: make_tag_file [OF assms] apply_filter_def)

theorem make_tag_filters_content_witness:
  "fst (make_tag [] \<lparr>base = [], filters = [''.txt'' \<mapsto> rev]\<rparr> ''n.txt'' example_world) =
     Inr (script_tag ''n.txt'' ''cba'') \<and>
   fst (make_tag [] \<lparr>base = [], filters = [''.txt'' \<mapsto> rev]\<rparr> ''a.html'' example_world) =
     Inr (script_tag ''a.html'' ''hello'')"
proof -
  let ?opts = "\<lparr>base = [], filters = [''.txt'' \<mapsto> rev]\<rparr>"
  have 1: "nodes example_world ''n.txt'' = Some (File ''abc'')"
    by (simp add: example_world_def)
  have 2: "nodes example_world ''a.html'' = Some (File ''hello'')"
    by (simp add: example_world_def)
  have 3: "filters ?opts (extname ''n.txt'') = Some rev"
    by (simp add: extname_def basename_def)
  have 4: "filters ?opts (extname ''a.html'') = None"
    by (simp add: extname_def basename_def)
  from make_tag_filters_content [OF 1, of ?opts "[]"] make_tag_filters_content [OF 2, of ?opts "[]"]
    3 4
  show ?thesis
    by (simp add: strip_base_def)
qed

text \<open>
  C6. When the destination is a regular file whose text contains \<^verbatim>\<open></body>\<close> and the
  patterns expand to no file at all, the call returns the text of the destination as it
  was, and the file system after the call is the file system before it.
\<close>

theorem bundlecache_no_sources_identity:
  assumes "map_RegExp h (base opts) = Inr baseRe"
    and "nodes w (resolve h destination) = Some (File html)"
    and "sublist ''</body>'' html"
    and "expand_all h (to_array files) = []"
  shows "fst (bundlecache h destination files opts w) = Inr html \<and>
         nodes (snd (bundlecache h destination files opts w)) = nodes w"
proof -
  have "\<forall>p\<in>set (expand_all h (to_array files)).
          nodes w p = None \<or> nodes w p = Some (File (id p))"
    using assms(4) by simp
  from bundlecache_runs [OF assms(1,2) this] assms(2,4) show ?thesis
    by (simp add: join_Nil slice_indexOf_id fun_upd_idem)
qed

theorem bundlecache_no_sources_identity_witness:
  "fst (bundlecache example_host ''index.html'' (Arr []) no_options example_world) =
     Inr ''<html><body>X</body></html>'' \<and>
   nodes (snd (bundlecache example_host ''index.html'' (Arr []) no_options example_world)) =
     nodes example_world"
proof -
  have 1: "map_RegExp example_host (base no_options) = Inr []"
    by (simp add: no_options_def)
  have 2: "nodes example_world (resolve example_host ''index.html'') =
      Some (File ''<html><body>X</body></html>'')"
    by (simp add: example_world_def example_host_def)
  have 3: "sublist ''</body>'' ''<html><body>X</body></html>''"
    by (simp add: sublist_Cons_right)
  have 4: "expand_all example_host (to_array (Arr [])) = []"
    by (simp add: expand_all_def to_array_def)
  from bundlecache_no_sources_identity [OF 1 2 3 4] show ?thesis .
qed

text \<open>
  C7. The resolved list is the expansions of the patterns one after the other, in the
  order of the patterns: nothing is removed and nothing is sorted. In a run that reaches
  the write, the blocks of the files that exist stand in the output in the order of that
  list, the first block as it is and every further block after exactly one newline. In
  the witness \<^verbatim>\<open>b.html\<close> comes before \<^verbatim>\<open>a.html\<close> and a second time after it.
\<close>

theorem bundlecache_keeps_pattern_order:
  assumes re: "map_RegExp h (base opts) = Inr baseRe"
    and dest: "nodes w (resolve h destination) = Some (File (pre @ ''</body>'' @ post))"
    and first: "\<forall>j<length pre. \<not> prefix ''</body>'' (drop j (pre @ ''</body>'' @ post))"
    and srcs: "\<forall>p\<in>set (expand_all h (to_array files)).
                 nodes w p = None \<or> nodes w p = Some (File (content p))"
  shows "expand_all h (to_array files) = concat (map (expand h) (to_array files)) \<and>
     fst (bundlecache h destination files opts w) =
       Inr (pre @
            (case map (\<lambda>p. script_tag (strip_base baseRe p) (apply_filter opts p (content p)))
                    (filter (\<lambda>p. nodes w p \<noteq> None)
                       (concat (map (expand h) (to_array files)))) of
               [] \<Rightarrow> []
             | t # ts \<Rightarrow> t @ concat (map (\<lambda>u. ''\<newline>'' @ u) ts)) @
            ''</body>'' @ post)"
  using bundlecache_runs [OF re dest srcs] splice_at_marker [OF first]
  by (simp add: expand_all_concat join_cases)

theorem bundlecache_keeps_pattern_order_witness:
  \<open>expand_all example_host (to_array (Arr [''b.html'', ''a.html'', ''b.html''])) =
     [''b.html'', ''a.html'', ''b.html''] \<and>
   fst (bundlecache example_host ''index.html'' (Arr [''b.html'', ''a.html'', ''b.html''])
          no_options example_world) =
     Inr (''<html><body>X'' @
          ''<script type="text/ng-template" id="b.html">\<newline>bye\<newline></script>'' @ ''\<newline>'' @
          ''<script type="text/ng-template" id="a.html">\<newline>hello\<newline></script>'' @ ''\<newline>'' @
          ''<script type="text/ng-template" id="b.html">\<newline>bye\<newline></script>'' @
          ''</body></html>'')\<close>
proof -
  have 1: "map_RegExp example_host (base no_options) = Inr []"
    by (simp add: no_options_def)
  have 2: "nodes example_world (resolve example_host ''index.html'') =
      Some (File (''<html><body>X'' @ ''</body>'' @ ''</html>''))"
    by (simp add: example_world_def example_host_def)
  have 3: "\<forall>j<length ''<html><body>X''.
      \<not> prefix ''</body>'' (drop j (''<html><body>X'' @ ''</body>'' @ ''</html>''))"
    by (simp add: All_less_Suc)
  have 4: "\<forall>p\<in>set (expand_all example_host (to_array (Arr [''b.html'', ''a.html'', ''b.html'']))).
      nodes example_world p = None \<or>
      nodes example_world p = Some (File ((\<lambda>p. if p = ''a.html'' then ''hello'' else ''bye'') p))"
    by (simp add: expand_all_def to_array_def example_host_def example_world_def)
  from bundlecache_keeps_pattern_order [OF 1 2 3 4] show ?thesis
    by (simp add: to_array_def example_host_def example_world_def
        strip_base_def apply_filter_def no_options_def script_tag_def)
qed

text \<open>
  C8. When \<^verbatim>\<open>new RegExp\<close> accepts every base pattern and the resolved destination does
  not exist or is not a regular file, the call stops with the warning of
  \<^verbatim>\<open>grunt.fail.warn\<close>. The file system is untouched, and the log gains the one
  \<^verbatim>\<open>existsSync\<close> of the destination (and the one \<^verbatim>\<open>lstatSync\<close> when it exists) and
  nothing else: no source file is read, nothing is written, and the check is made once.
\<close>

theorem bundlecache_invalid_destination:
  assumes re: "map_RegExp h (base opts) = Inr baseRe"
    and notfile: "nodes w (resolve h destination) = None \<or>
                  nodes w (resolve h destination) = Some Directory"
  shows
    "let d = resolve h destination
     in bundlecache h destination files opts w =
          (Inl (FailWarn (warn_message d)),
           w\<lparr>log := log w @ (if nodes w d = None then [ExistsSync d]
                              else [ExistsSync d, LstatSync d])\<rparr>)"
  using notfile
  by (auto simp: bundlecache_def grunt_fail_warn_def re Let_def existsSync_def
      lstatSync_isFile_def emit_def)

theorem bundlecache_invalid_destination_witness:
  "bundlecache example_host ''missing.html'' (Arr [''a.html'']) no_options example_world =
     (Inl (FailWarn ''Destination path /site/missing.html does not exist or is not a File.''),
      example_world\<lparr>log := [ExistsSync ''/site/missing.html'']\<rparr>) \<and>
   bundlecache example_host ''dir'' (Arr [''a.html'']) no_options example_world =
     (Inl (FailWarn ''Destination path /site/dir does not exist or is not a File.''),
      example_world\<lparr>log := [ExistsSync ''/site/dir'', LstatSync ''/site/dir'']\<rparr>)"
proof -
  have 1: "map_RegExp example_host (base no_options) = Inr []"
    by (simp add: no_options_def)
  have 2: "nodes example_world (resolve example_host ''missing.html'') = None \<or>
      nodes example_world (resolve example_host ''missing.html'') = Some Directory"
    by (simp add: example_world_def example_host_def)
  have 3: "nodes example_world (resolve example_host ''dir'') = None \<or>
      nodes example_world (resolve example_host ''dir'') = Some Directory"
    by (simp add: example_world_def example_host_def)
  from bundlecache_invalid_destination [OF 1 2, of "Arr [''a.html'']"]
    bundlecache_invalid_destination [OF 1 3, of "Arr [''a.html'']"]
  show ?thesis
    by (simp add: Let_def warn_message_def example_host_def example_world_def)
qed

text \<open>
  C9. A resolved path \<open>p\<close> that does not exist changes nothing but the one call of
  \<^verbatim>\<open>fs.existsSync\<close> on it: the call returns the HTML built from the other paths in
  their order, no error is raised, and the log has no read of \<open>p\<close>. The log of the whole
  call is the two checks of the destination, one \<^verbatim>\<open>existsSync\<close> per resolved path, one
  read per path that exists, then the read and the write of the destination.
\<close>

theorem bundlecache_skips_missing_files:
  assumes re: "map_RegExp h (base opts) = Inr baseRe"
    and dest: "nodes w (resolve h destination) = Some (File html)"
    and srcs: "\<forall>q\<in>set (expand_all h (to_array files)).
                 nodes w q = None \<or> nodes w q = Some (File (content q))"
    and stale: "nodes w p = None"
  shows
    "let d = resolve h destination;
         kept = filter (\<lambda>q. nodes w q \<noteq> None) (removeAll p (expand_all h (to_array files)));
         out = slice html 0 (indexOf html ''</body>'') @
               join (map (\<lambda>q. script_tag (strip_base baseRe q) (apply_filter opts q (content q)))
                      kept) ''\<newline>'' @
               slice_from html (indexOf html ''</body>'')
     in fst (bundlecache h destination files opts w) = Inr out \<and>
        log (snd (bundlecache h destination files opts w)) =
          log w @ [ExistsSync d, LstatSync d] @
          map ExistsSync (expand_all h (to_array files)) @
          map ReadFile kept @ [ReadFile d, WriteFile d out]"
proof -
  have "filter (\<lambda>q. nodes w q \<noteq> None) (removeAll p (expand_all h (to_array files))) =
        filter (\<lambda>q. nodes w q \<noteq> None) (expand_all h (to_array files))"
    using stale by (simp add: filter_removeAll_absent)
  with bundlecache_runs [OF re dest srcs] show ?thesis
    by (simp add: Let_def)
qed

theorem bundlecache_skips_missing_files_witness:
  \<open>fst (bundlecache example_host ''index.html'' (Arr [''a.html'', ''gone.html'', ''b.html''])
          no_options example_world) =
     Inr (''<html><body>X'' @
          ''<script type="text/ng-template" id="a.html">\<newline>hello\<newline></script>'' @ ''\<newline>'' @
          ''<script type="text/ng-template" id="b.html">\<newline>bye\<newline></script>'' @
          ''</body></html>'') \<and>
   log (snd (bundlecache example_host ''index.html'' (Arr [''a.html'', ''gone.html'', ''b.html''])
          no_options example_world)) =
     [ExistsSync ''/site/index.html'', LstatSync ''/site/index.html'',
      ExistsSync ''a.html'', ExistsSync ''gone.html'', ExistsSync ''b.html'',
      ReadFile ''a.html'', ReadFile ''b.html'',
      ReadFile ''/site/index.html'',
      WriteFile ''/site/index.html''
        (''<html><body>X'' @
          ''<script type="text/ng-template" id="a.html">\<newline>hello\<newline></script>'' @ ''\<newline>'' @
          ''<script type="text/ng-template" id="b.html">\<newline>bye\<newline></script>'' @
          ''</body></html>'')]\<close>
proof -
  have 1: "map_RegExp example_host (base no_options) = Inr []"
    by (simp add: no_options_def)
  have 2: "nodes example_world (resolve example_host ''index.html'') =
      Some (File ''<html><body>X</body></html>'')"
    by (simp add: example_world_def example_host_def)
  have 3: "\<forall>q\<in>set (expand_all example_host (to_array (Arr [''a.html'', ''gone.html'', ''b.html'']))).
      nodes example_world q = None \<or>
      nodes example_world q = Some (File ((\<lambda>q. if q = ''a.html'' then ''hello'' else ''bye'') q))"
    by (simp add: expand_all_def to_array_def example_host_def example_world_def)
  have 4: "nodes example_world ''gone.html'' = None"
    by (simp add: example_world_def)
  have 5: "indexOf ''<html><body>X</body></html>'' ''</body>'' = 13"
    by (simp add: indexOf_def)
  from bundlecache_skips_missing_files [OF 1 2 3 4] show ?thesis
    by (simp add: Let_def 5 slice_to_nonneg slice_from_nonneg expand_all_def to_array_def
        example_host_def example_world_def strip_base_def apply_filter_def no_options_def
        script_tag_def join_def)
qed

text \<open>
  C10. When the text of the destination is not empty and has no \<^verbatim>\<open></body>\<close>,
  \<^verbatim>\<open>indexOf\<close> gives \<open>-1\<close>, \<^verbatim>\<open>slice(0, -1)\<close> is the text without its last character and
  \<^verbatim>\<open>slice(-1)\<close> is the last character: the call returns the text with the joined blocks
  put in before its last character, the destination holds that text afterwards, and the
  last call on the file system is the write of it. This holds for every resolved list,
  the empty one included.
\<close>

theorem bundlecache_without_marker:
  assumes re: "map_RegExp h (base opts) = Inr baseRe"
    and dest: "nodes w (resolve h destination) = Some (File html)"
    and nonempty: "html \<noteq> []"
    and nomarker: "\<not> sublist ''</body>'' html"
    and srcs: "\<forall>p\<in>set (expand_all h (to_array files)).
                 nodes w p = None \<or> nodes w p = Some (File (content p))"
  shows
    "let out = butlast html @
               join (map (\<lambda>p. script_tag (strip_base baseRe p) (apply_filter opts p (content p)))
                      (filter (\<lambda>p. nodes w p \<noteq> None) (expand_all h (to_array files))))
                 ''\<newline>'' @
               [last html]
     in fst (bundlecache h destination files opts w) = Inr out \<and>
        nodes (snd (bundlecache h destination files opts w)) (resolve h destination) =
          Some (File out) \<and>
        last (log (snd (bundlecache h destination files opts w))) =
          WriteFile (resolve h destination) out"
proof -
  from nomarker have "indexOf html ''</body>'' = - 1"
    by (simp add: indexOf_def indexOf_at_minus1)
  with bundlecache_runs [OF re dest srcs] nonempty show ?thesis
    by (simp add: Let_def slice_to_minus1 slice_from_minus1)
qed

theorem bundlecache_without_marker_witness:
  \<open>fst (bundlecache example_host ''bare.html'' (Arr [''a.html'', ''b.html'']) no_options
          example_world) =
     Inr (''<p>x</p'' @
          ''<script type="text/ng-template" id="a.html">\<newline>hello\<newline></script>'' @ ''\<newline>'' @
          ''<script type="text/ng-template" id="b.html">\<newline>bye\<newline></script>'' @
          ''>'') \<and>
   nodes (snd (bundlecache example_host ''bare.html'' (Arr [''a.html'', ''b.html'']) no_options
          example_world)) ''/site/bare.html'' =
     Some (File (''<p>x</p'' @
          ''<script type="text/ng-template" id="a.html">\<newline>hello\<newline></script>'' @ ''\<newline>'' @
          ''<script type="text/ng-template" id="b.html">\<newline>bye\<newline></script>'' @
          ''>'')) \<and>
   last (log (snd (bundlecache example_host ''bare.html'' (Arr [''a.html'', ''b.html'']) no_options
          example_world))) =
     WriteFile ''/site/bare.html'' (''<p>x</p'' @
          ''<script type="text/ng-template" id="a.html">\<newline>hello\<newline></script>'' @ ''\<newline>'' @
          ''<script type="text/ng-template" id="b.html">\<newline>bye\<newline></script>'' @
          ''>'')\<close>
proof -
  have 1: "map_RegExp example_host (base no_options) = Inr []"
    by (simp add: no_options_def)
  have 2: "nodes example_world (resolve example_host ''bare.html'') = Some (File ''<p>x</p>'')"
    by (simp add: example_world_def example_host_def)
  have 3: "''<p>x</p>'' \<noteq> []"
    by simp
  have 4: "\<not> sublist ''</body>'' ''<p>x</p>''"
    by (simp add: sublist_Cons_right)
  have 5: "\<forall>p\<in>set (expand_all example_host (to_array (Arr [''a.html'', ''b.html'']))).
      nodes example_world p = None \<or>
      nodes example_world p = Some (File ((\<lambda>q. if q = ''a.html'' then ''hello'' else ''bye'') p))"
    by (simp add: expand_all_def to_array_def example_host_def example_world_def)
  from bundlecache_without_marker [OF 1 2 3 4 5] show ?thesis
    by (simp add: Let_def expand_all_def to_array_def
        example_host_def example_world_def strip_base_def apply_filter_def no_options_def
        script_tag_def join_def)
qed

end
